theory Spec2Isabelle
  imports Main "HOL-Library.Sublist"
begin

section \<open>Python values used by recommender.py\<close>

text \<open>
  A Python \<open>str\<close> is a sequence of code points. A \<open>string\<close> of this theory stands for a
  \<open>str\<close> all of whose code points are below 256: each \<open>char\<close> is one code point (its
  value is \<open>of_char c\<close>), not a byte of an encoding. On that range \<open>str.strip()\<close> and
  \<open>str.lower()\<close> are modelled exactly, and the range is closed under both.
  Python's \<open>int\<close> is unbounded and is \<open>int\<close> here. Exceptions are values of \<open>error\<close>;
  a function that can raise returns \<open>error + 'a\<close>, with \<open>Inl\<close> for the raise.
\<close>

datatype error = ValueError string | KeyError string

text \<open>\<open>str.isspace\<close> on one code point below 256: the code points 9-13, 28-32, 133 and 160.\<close>

definition is_space :: "char \<Rightarrow> bool" where
  "is_space c =
     (let n = (of_char c :: nat)
      in (9 \<le> n \<and> n \<le> 13) \<or> (28 \<le> n \<and> n \<le> 32) \<or> n = 133 \<or> n = 160)"

text \<open>
  \<open>str.lower\<close> on one code point below 256: A-Z, and the Latin-1 capitals 192-214 and
  216-222, move up by 32; every other code point is kept.
\<close>

definition lower_char :: "char \<Rightarrow> char" where
  "lower_char c =
     (let n = (of_char c :: nat)
      in if (65 \<le> n \<and> n \<le> 90) \<or> (192 \<le> n \<and> n \<le> 214) \<or> (216 \<le> n \<and> n \<le> 222)
         then char_of (n + 32) else c)"

definition lower :: "string \<Rightarrow> string" where
  "lower s = map lower_char s"

text \<open>\<open>s.strip()\<close>: leading and trailing whitespace removed.\<close>

definition strip :: "string \<Rightarrow> string" where
  "strip s = rev (dropWhile is_space (rev (dropWhile is_space s)))"

text \<open>\<open>str(n)\<close> for an \<open>int\<close>, as an f-string renders \<open>{age}\<close>: decimal, \<open>-\<close> when negative.\<close>

definition digit_char :: "nat \<Rightarrow> char" where
  "digit_char d = ''0123456789'' ! d"

function str_nat :: "nat \<Rightarrow> string" where
  "str_nat n = (if n < 10 then [digit_char n] else str_nat (n div 10) @ [digit_char (n mod 10)])"
  by pat_completeness auto
termination
  by (relation "measure id") auto

declare str_nat.simps [simp del]

definition str_int :: "int \<Rightarrow> string" where
  "str_int i = (if i < 0 then CHR ''-'' # str_nat (nat (- i)) else str_nat (nat i))"

text \<open>\<open>sep.join(xs)\<close>.\<close>

fun join :: "string \<Rightarrow> string list \<Rightarrow> string" where
  "join sep [] = []"
| "join sep [x] = x"
| "join sep (x # y # ys) = x @ sep @ join sep (y # ys)"

text \<open>
  A \<open>dict\<close> with \<open>str\<close> keys is an association list in insertion order, which is the order
  of \<open>items()\<close> and \<open>keys()\<close>. \<open>k in d\<close>, \<open>d[k]\<close> (raising \<open>KeyError\<close>) and
  \<open>d.get(k, default)\<close>:
\<close>

definition dict_contains :: "(string \<times> 'v) list \<Rightarrow> string \<Rightarrow> bool" where
  "dict_contains d k = (map_of d k \<noteq> None)"

definition dict_lookup :: "(string \<times> 'v) list \<Rightarrow> string \<Rightarrow> error + 'v" where
  "dict_lookup d k = (case map_of d k of None \<Rightarrow> Inl (KeyError k) | Some v \<Rightarrow> Inr v)"

definition dict_get :: "(string \<times> 'v) list \<Rightarrow> string \<Rightarrow> 'v \<Rightarrow> 'v" where
  "dict_get d k dflt = (case map_of d k of None \<Rightarrow> dflt | Some v \<Rightarrow> v)"

text \<open>
  \<open>str(list(d.keys()))\<close> inside an f-string: the \<open>repr\<close> of a list of \<open>str\<close>. Every key of
  the table it is applied to consists of lowercase letters only, for which \<open>repr\<close> is the
  text between single quotes, with no escape.
\<close>

definition repr_str_list :: "string list \<Rightarrow> string" where
  "repr_str_list xs = ''['' @ join '', '' (map (\<lambda>x. [CHR 0x27] @ x @ [CHR 0x27]) xs) @ '']''"

section \<open>Age groups\<close>

definition AGE_GROUPS :: "(string \<times> int \<times> int) list" where
  "AGE_GROUPS =
     [(''child'', 0, 12),
      (''teen'', 13, 17),
      (''young_adult'', 18, 35),
      (''adult'', 36, 59),
      (''senior'', 60, 150)]"

text \<open>The \<open>for group, (lo, hi) in AGE_GROUPS.items()\<close> loop: the first range that holds the age.\<close>

fun classify_loop :: "(string \<times> int \<times> int) list \<Rightarrow> int \<Rightarrow> string option" where
  "classify_loop [] age = None"
| "classify_loop ((grp, lo, hi) # rest) age =
     (if lo \<le> age \<and> age \<le> hi then Some grp else classify_loop rest age)"

definition classify_age_group :: "int \<Rightarrow> error + string" where
  "classify_age_group age =
     (if age < 0 then Inl (ValueError (''Age must be non-negative, got '' @ str_int age))
      else case classify_loop AGE_GROUPS age of
             Some grp \<Rightarrow> Inr grp
           | None \<Rightarrow> Inl (ValueError (''Could not classify age '' @ str_int age)))"

section \<open>Recommendation data\<close>

definition FACE_SHAPE_FRAMES :: "(string \<times> string list) list" where
  "FACE_SHAPE_FRAMES =
     [(''oval'', [''aviator'', ''wayfarer'', ''round'', ''cat-eye'', ''geometric'']),
      (''round'', [''rectangular'', ''square'', ''geometric'', ''browline'', ''wayfarer'']),
      (''square'', [''round'', ''oval'', ''rimless'', ''cat-eye'', ''aviator'']),
      (''heart'', [''aviator'', ''round'', ''rimless'', ''light-colored frames'']),
      (''oblong'', [''tall frames'', ''decorative temples'', ''round'', ''square'']),
      (''diamond'', [''cat-eye'', ''oval'', ''rimless browline'']),
      (''triangle'', [''top-heavy frames'', ''browline'', ''cat-eye'', ''aviator''])]"

text \<open>
  Every entry of \<open>_AGE_GROUP_MODIFIERS\<close> is a dict with the same three keys, \<open>"prefer"\<close>,
  \<open>"avoid"\<close> and \<open>"fit_notes"\<close>: a record with one field for each.
\<close>

record modifiers =
  mod_prefer :: "string list"
  mod_avoid :: "string list"
  mod_fit_notes :: string

definition AGE_GROUP_MODIFIERS :: "(string \<times> modifiers) list" where
  "AGE_GROUP_MODIFIERS =
     [(''child'',
        \<lparr>mod_prefer = [''flexible frames'', ''small fit'', ''rubber nose pads'',
                       ''polycarbonate lenses''],
         mod_avoid = [''rimless'', ''large frames'', ''heavy metal frames''],
         mod_fit_notes =
           ''Small/petite fit; lightweight and durable materials are essential.''\<rparr>),
      (''teen'',
        \<lparr>mod_prefer = [''trendy styles'', ''sporty frames'', ''medium fit''],
         mod_avoid = [''very large oversized frames''],
         mod_fit_notes = ''Medium fit; style-conscious options work well.''\<rparr>),
      (''young_adult'',
        \<lparr>mod_prefer = [''fashion-forward'', ''bold colors'', ''geometric'', ''large fit''],
         mod_avoid = [],
         mod_fit_notes = ''Standard adult fit; wide variety of styles suitable.''\<rparr>),
      (''adult'',
        \<lparr>mod_prefer = [''classic styles'', ''professional frames'', ''progressive-lens ready''],
         mod_avoid = [],
         mod_fit_notes =
           ''Standard to wide fit; consider progressive-lens compatibility.''\<rparr>),
      (''senior'',
        \<lparr>mod_prefer = [''progressive-lens ready'', ''lightweight frames'', ''wide fit'',
                       ''high nose bridge'', ''spring hinges''],
         mod_avoid = [''very small frames'', ''heavy frames''],
         mod_fit_notes =
           ''Wide fit with spring hinges; frames should accommodate progressive or '' @
           ''bifocal lenses. Lightweight materials (titanium, memory metal) reduce fatigue.''\<rparr>)]"

definition AGE_LENS_SUGGESTIONS :: "(string \<times> string list) list" where
  "AGE_LENS_SUGGESTIONS =
     [(''child'', [''polycarbonate lenses'', ''anti-scratch coating'', ''UV400 protection'']),
      (''teen'', [''polycarbonate lenses'', ''anti-reflective coating'', ''UV400 protection'']),
      (''young_adult'', [''single-vision'', ''anti-reflective coating'', ''blue-light filter'']),
      (''adult'', [''progressive lenses'', ''anti-reflective coating'', ''blue-light filter'',
                   ''UV400 protection'']),
      (''senior'', [''progressive or bifocal lenses'', ''anti-reflective coating'',
                    ''photochromic option'', ''UV400 protection'',
                    ''high-index lenses to reduce weight''])]"

section \<open>Recommendation result\<close>

record GlassRecommendation =
  face_shape :: string
  age :: int
  age_group :: string
  recommended_frames :: "string list"
  preferred_features :: "string list"
  frames_to_avoid :: "string list"
  fit_notes :: string
  lens_suggestions :: "string list"

text \<open>
  \<open>GlassRecommendation.summary\<close>. \<open>summary_lines\<close> is the list \<open>lines\<close> the method builds,
  \<open>summary\<close> its result \<open>"\n".join(lines)\<close>. An empty list is false in Python.
\<close>

definition summary_lines :: "GlassRecommendation \<Rightarrow> string list" where
  "summary_lines r =
     [''Face shape  : '' @ face_shape r,
      ''Age         : '' @ str_int (age r) @ '' ('' @ age_group r @ '')'',
      ''Frames      : '' @ join '', '' (recommended_frames r),
      ''Features    : '' @ join '', '' (preferred_features r)]
     @ (if frames_to_avoid r \<noteq> [] then [''Avoid       : '' @ join '', '' (frames_to_avoid r)]
        else [])
     @ (if lens_suggestions r \<noteq> [] then [''Lenses      : '' @ join '', '' (lens_suggestions r)]
        else [])
     @ [''Fit notes   : '' @ fit_notes r]"

definition summary :: "GlassRecommendation \<Rightarrow> string" where
  "summary r = join [CHR 0x0A] (summary_lines r)"

section \<open>Core recommendation function\<close>

text \<open>
  \<open>recommend_glasses\<close>, with the module table \<open>_AGE_LENS_SUGGESTIONS\<close> it reads through
  \<open>.get(age_group, [])\<close> as the parameter \<open>lens_table\<close>; \<open>recommend_glasses\<close> itself is the
  function at the table of the module. The parameters are \<open>shape_in\<close> and \<open>age_in\<close>
  because \<open>face_shape\<close> and \<open>age\<close> name the fields of the result.
\<close>

definition unknown_face_shape_message :: "string \<Rightarrow> string" where
  "unknown_face_shape_message shape =
     ''Unknown face shape '' @ [CHR 0x27] @ shape @ [CHR 0x27] @ ''. '' @
     ''Supported shapes: '' @ repr_str_list (map fst FACE_SHAPE_FRAMES)"

definition recommend_glasses_with ::
    "(string \<times> string list) list \<Rightarrow> string \<Rightarrow> int \<Rightarrow> error + GlassRecommendation" where
  "recommend_glasses_with lens_table shape_in age_in =
     (let shape = lower (strip shape_in)
      in if \<not> dict_contains FACE_SHAPE_FRAMES shape
         then Inl (ValueError (unknown_face_shape_message shape))
         else
           case classify_age_group age_in of
             Inl e \<Rightarrow> Inl e
           | Inr grp \<Rightarrow>
               (case dict_lookup FACE_SHAPE_FRAMES shape of
                  Inl e \<Rightarrow> Inl e
                | Inr base_frames \<Rightarrow>
                    (case dict_lookup AGE_GROUP_MODIFIERS grp of
                       Inl e \<Rightarrow> Inl e
                     | Inr mods \<Rightarrow>
                         let avoided = mod_avoid mods;
                             recommended = filter (\<lambda>f. f \<notin> set avoided) base_frames
                         in Inr \<lparr>face_shape = shape,
                                 age = age_in,
                                 age_group = grp,
                                 recommended_frames = recommended,
                                 preferred_features = mod_prefer mods,
                                 frames_to_avoid = avoided,
                                 fit_notes = mod_fit_notes mods,
                                 lens_suggestions = dict_get lens_table grp []\<rparr>)))"

definition recommend_glasses :: "string \<Rightarrow> int \<Rightarrow> error + GlassRecommendation" where
  "recommend_glasses shape_in age_in = recommend_glasses_with AGE_LENS_SUGGESTIONS shape_in age_in"

section \<open>Reading a summary\<close>

text \<open>
  What a reader of the text sees: its lines, the pieces between newline characters (as
  \<open>text.split("\n")\<close> gives them), and whether one of them starts with a given label.
  \<open>newline_free\<close> holds of a recommendation none of whose strings holds a newline.
\<close>

fun split_lines :: "string \<Rightarrow> string list" where
  "split_lines [] = [[]]"
| "split_lines (c # cs) =
     (if c = CHR 0x0A then [] # split_lines cs
      else case split_lines cs of
             [] \<Rightarrow> [[c]]
           | l # ls \<Rightarrow> (c # l) # ls)"

definition has_line :: "string \<Rightarrow> string \<Rightarrow> bool" where
  "has_line label text = list_ex (prefix label) (split_lines text)"

definition no_newline :: "string \<Rightarrow> bool" where
  "no_newline s = (CHR 0x0A \<notin> set s)"

definition newline_free :: "GlassRecommendation \<Rightarrow> bool" where
  "newline_free r =
     (no_newline (face_shape r) \<and> no_newline (age_group r) \<and> no_newline (fit_notes r)
      \<and> list_all no_newline (recommended_frames r)
      \<and> list_all no_newline (preferred_features r)
      \<and> list_all no_newline (frames_to_avoid r)
      \<and> list_all no_newline (lens_suggestions r))"

section \<open>Age classification\<close>

lemma classify_age_group_in_range:
  assumes "0 \<le> a" and "a \<le> 150"
  shows "classify_age_group a =
           Inr (if a \<le> 12 then ''child'' else if a \<le> 17 then ''teen''
                else if a \<le> 35 then ''young_adult'' else if a \<le> 59 then ''adult''
                else ''senior'')"
  using assms by (simp add: classify_age_group_def AGE_GROUPS_def)

lemma set_AGE_GROUPS:
  "e \<in> set AGE_GROUPS \<longleftrightarrow>
     e = (''child'', 0, 12) \<or> e = (''teen'', 13, 17) \<or> e = (''young_adult'', 18, 35)
     \<or> e = (''adult'', 36, 59) \<or> e = (''senior'', 60, 150)"
  by (simp add: AGE_GROUPS_def)

lemma AGE_GROUPS_cover_unique:
  assumes "e \<in> set AGE_GROUPS" and "fst (snd e) \<le> a" and "a \<le> snd (snd e)"
  shows "e = (if a \<le> 12 then (''child'', 0, 12) else if a \<le> 17 then (''teen'', 13, 17)
              else if a \<le> 35 then (''young_adult'', 18, 35)
              else if a \<le> 59 then (''adult'', 36, 59) else (''senior'', 60, 150))"
proof -
  from assms(1)
  have "e = (''child'', 0, 12) \<or> e = (''teen'', 13, 17) \<or> e = (''young_adult'', 18, 35)
          \<or> e = (''adult'', 36, 59) \<or> e = (''senior'', 60, 150)"
    by (simp only: set_AGE_GROUPS)
  then show ?thesis
  proof (elim disjE)
    assume "e = (''child'', 0, 12)" with assms(2,3) show ?thesis by simp
  next
    assume "e = (''teen'', 13, 17)" with assms(2,3) show ?thesis by simp
  next
    assume "e = (''young_adult'', 18, 35)" with assms(2,3) show ?thesis by simp
  next
    assume "e = (''adult'', 36, 59)" with assms(2,3) show ?thesis by simp
  next
    assume "e = (''senior'', 60, 150)" with assms(2,3) show ?thesis by simp
  qed
qed

text \<open>
  C1. For every age from 0 to 150 \<open>classify_age_group\<close> returns a label, and the label is
  \<open>child\<close> exactly on 0-12, \<open>teen\<close> exactly on 13-17, \<open>young_adult\<close> exactly on 18-35,
  \<open>adult\<close> exactly on 36-59 and \<open>senior\<close> exactly on 60-150. Exactly one entry of
  \<open>AGE_GROUPS\<close> has a range that holds the age: the ranges leave no gap and do not overlap.
\<close>

theorem classify_age_group_partition:
  assumes "0 \<le> a" and "a \<le> 150"
  shows "(classify_age_group a = Inr ''child'' \<longleftrightarrow> 0 \<le> a \<and> a \<le> 12)
       \<and> (classify_age_group a = Inr ''teen'' \<longleftrightarrow> 13 \<le> a \<and> a \<le> 17)
       \<and> (classify_age_group a = Inr ''young_adult'' \<longleftrightarrow> 18 \<le> a \<and> a \<le> 35)
       \<and> (classify_age_group a = Inr ''adult'' \<longleftrightarrow> 36 \<le> a \<and> a \<le> 59)
       \<and> (classify_age_group a = Inr ''senior'' \<longleftrightarrow> 60 \<le> a \<and> a \<le> 150)
       \<and> classify_age_group a
             \<in> Inr ` {''child'', ''teen'', ''young_adult'', ''adult'', ''senior''}
       \<and> (\<exists>!e. e \<in> set AGE_GROUPS \<and> fst (snd e) \<le> a \<and> a \<le> snd (snd e))"
proof -
  let ?pick = "if a \<le> 12 then (''child'', 0::int, 12::int) else if a \<le> 17 then (''teen'', 13, 17)
               else if a \<le> 35 then (''young_adult'', 18, 35)
               else if a \<le> 59 then (''adult'', 36, 59) else (''senior'', 60, 150)"
  have "\<exists>!e. e \<in> set AGE_GROUPS \<and> fst (snd e) \<le> a \<and> a \<le> snd (snd e)"
  proof (rule ex1I)
    show "?pick \<in> set AGE_GROUPS \<and> fst (snd ?pick) \<le> a \<and> a \<le> snd (snd ?pick)"
      using assms by (simp add: set_AGE_GROUPS)
  next
    fix e
    assume "e \<in> set AGE_GROUPS \<and> fst (snd e) \<le> a \<and> a \<le> snd (snd e)"
    then show "e = ?pick"
      using AGE_GROUPS_cover_unique by blast
  qed
  then show ?thesis
    using assms by (simp add: classify_age_group_in_range)
qed

theorem classify_age_group_partition_witness:
  "(0::int) \<le> 13 \<and> (13::int) \<le> 150 \<and> classify_age_group 13 = Inr ''teen''
     \<and> classify_age_group 13 \<noteq> Inr ''child''"
  using classify_age_group_partition [of 13] by simp

section \<open>The tables and the recommendation function\<close>

lemma dict_contains_FACE_SHAPE_FRAMES:
  "dict_contains FACE_SHAPE_FRAMES k \<longleftrightarrow>
     k \<in> {''oval'', ''round'', ''square'', ''heart'', ''oblong'', ''diamond'', ''triangle''}"
  by (simp add: dict_contains_def FACE_SHAPE_FRAMES_def)

lemma recommend_glasses_with_unknown:
  assumes "\<not> dict_contains FACE_SHAPE_FRAMES (lower (strip s))"
  shows "recommend_glasses_with lens s a =
           Inl (ValueError (unknown_face_shape_message (lower (strip s))))"
  using assms by (simp add: recommend_glasses_with_def)

lemma recommend_glasses_with_age_error:
  assumes "dict_contains FACE_SHAPE_FRAMES (lower (strip s))"
    and "classify_age_group a = Inl e"
  shows "recommend_glasses_with lens s a = Inl e"
  using assms by (simp add: recommend_glasses_with_def)

lemma recommend_glasses_with_known:
  assumes "map_of FACE_SHAPE_FRAMES (lower (strip s)) = Some base"
    and "classify_age_group a = Inr g"
    and "map_of AGE_GROUP_MODIFIERS g = Some m"
  shows "recommend_glasses_with lens s a =
           Inr \<lparr>face_shape = lower (strip s), age = a, age_group = g,
                recommended_frames = filter (\<lambda>f. f \<notin> set (mod_avoid m)) base,
                preferred_features = mod_prefer m, frames_to_avoid = mod_avoid m,
                fit_notes = mod_fit_notes m, lens_suggestions = dict_get lens g []\<rparr>"
  using assms by (simp add: recommend_glasses_with_def dict_contains_def dict_lookup_def Let_def)

lemma classify_age_group_label:
  assumes "classify_age_group a = Inr g"
  shows "g \<in> {''child'', ''teen'', ''young_adult'', ''adult'', ''senior''}"
  using assms
  by (simp add: classify_age_group_def AGE_GROUPS_def split: if_splits)

lemma set_FACE_SHAPE_FRAMES:
  "(k, base) \<in> set FACE_SHAPE_FRAMES \<longleftrightarrow>
     k = ''oval'' \<and> base = [''aviator'', ''wayfarer'', ''round'', ''cat-eye'', ''geometric'']
   \<or> k = ''round'' \<and> base = [''rectangular'', ''square'', ''geometric'', ''browline'', ''wayfarer'']
   \<or> k = ''square'' \<and> base = [''round'', ''oval'', ''rimless'', ''cat-eye'', ''aviator'']
   \<or> k = ''heart'' \<and> base = [''aviator'', ''round'', ''rimless'', ''light-colored frames'']
   \<or> k = ''oblong'' \<and> base = [''tall frames'', ''decorative temples'', ''round'', ''square'']
   \<or> k = ''diamond'' \<and> base = [''cat-eye'', ''oval'', ''rimless browline'']
   \<or> k = ''triangle'' \<and> base = [''top-heavy frames'', ''browline'', ''cat-eye'', ''aviator'']"
  by (simp add: FACE_SHAPE_FRAMES_def)


lemma mod_avoid_AGE_GROUP_MODIFIERS:
  assumes "(g, m) \<in> set AGE_GROUP_MODIFIERS"
  shows "g = ''child'' \<and> mod_avoid m = [''rimless'', ''large frames'', ''heavy metal frames'']
       \<or> g = ''teen'' \<and> mod_avoid m = [''very large oversized frames'']
       \<or> g = ''young_adult'' \<and> mod_avoid m = []
       \<or> g = ''adult'' \<and> mod_avoid m = []
       \<or> g = ''senior'' \<and> mod_avoid m = [''very small frames'', ''heavy frames'']"
proof -
  from assms have "(g, m) = AGE_GROUP_MODIFIERS ! 0 \<or> (g, m) = AGE_GROUP_MODIFIERS ! 1
      \<or> (g, m) = AGE_GROUP_MODIFIERS ! 2 \<or> (g, m) = AGE_GROUP_MODIFIERS ! 3
      \<or> (g, m) = AGE_GROUP_MODIFIERS ! 4"
    by (simp add: AGE_GROUP_MODIFIERS_def)
  then show ?thesis
    by (elim disjE) (simp_all add: AGE_GROUP_MODIFIERS_def)
qed


lemma first_base_frame:
  assumes "(k, base) \<in> set FACE_SHAPE_FRAMES"
  shows "base \<noteq> [] \<and> 
         hd base \<in> {''aviator'', ''rectangular'', ''round'', ''tall frames'', ''cat-eye'',
                 ''top-heavy frames''}"
  using assms [unfolded set_FACE_SHAPE_FRAMES] by (elim disjE conjE) simp_all

lemma filtered_frames_nonempty:
  assumes "map_of FACE_SHAPE_FRAMES k = Some base"
    and "map_of AGE_GROUP_MODIFIERS g = Some m"
  shows "filter (\<lambda>f. f \<notin> set (mod_avoid m)) base \<noteq> []"
proof -
  from assms(1) have "(k, base) \<in> set FACE_SHAPE_FRAMES"
    by (rule map_of_SomeD)
  then have b: "base \<noteq> []"
    and f: "hd base \<in> {''aviator'', ''rectangular'', ''round'', ''tall frames'', ''cat-eye'',
                 ''top-heavy frames''}"
    using first_base_frame by blast+
  from assms(2) have "(g, m) \<in> set AGE_GROUP_MODIFIERS"
    by (rule map_of_SomeD)
  from mod_avoid_AGE_GROUP_MODIFIERS [OF this]
  have "set (mod_avoid m) \<subseteq> {''rimless'', ''large frames'', ''heavy metal frames'',
            ''very large oversized frames'', ''very small frames'', ''heavy frames''}"
    by (elim disjE conjE) simp_all
  moreover have "hd base \<notin> {''rimless'', ''large frames'', ''heavy metal frames'',
            ''very large oversized frames'', ''very small frames'', ''heavy frames''}"
    using f by (elim insertE emptyE) simp_all
  ultimately have "hd base \<notin> set (mod_avoid m)"
    by blast
  with b show ?thesis
    by (cases base) simp_all
qed

lemma supported_shape_lookup:
  assumes "k \<in> {''oval'', ''round'', ''square'', ''heart'', ''oblong'', ''diamond'', ''triangle''}"
  shows "\<exists>base. map_of FACE_SHAPE_FRAMES k = Some base"
  using assms by (elim insertE emptyE) (simp_all add: FACE_SHAPE_FRAMES_def)

lemma age_group_lookup:
  assumes "classify_age_group a = Inr g"
  shows "\<exists>m. map_of AGE_GROUP_MODIFIERS g = Some m"
proof -
  from assms have "g \<in> {''child'', ''teen'', ''young_adult'', ''adult'', ''senior''}"
    by (rule classify_age_group_label)
  then show ?thesis
    by (elim insertE emptyE) (simp_all add: AGE_GROUP_MODIFIERS_def)
qed

lemma classify_age_group_succeeds:
  assumes "0 \<le> a" and "a \<le> 150"
  shows "\<exists>g. classify_age_group a = Inr g"
  using assms by (simp add: classify_age_group_in_range)

text \<open>
  C3. For every input whose normalized face shape is one of the 7 supported labels and every
  age from 0 to 150 (so for each of the 7 x 5 combinations of shape and age group),
  \<open>recommend_glasses\<close> returns a recommendation, and its \<open>recommended_frames\<close> is not
  empty.
\<close>

theorem recommend_glasses_all_combinations:
  assumes "lower (strip s) \<in>
             {''oval'', ''round'', ''square'', ''heart'', ''oblong'', ''diamond'', ''triangle''}"
    and "0 \<le> a" and "a \<le> 150"
  shows "\<exists>r. recommend_glasses s a = Inr r \<and> recommended_frames r \<noteq> []"
proof -
  from assms(1) obtain base where base: "map_of FACE_SHAPE_FRAMES (lower (strip s)) = Some base"
    using supported_shape_lookup by blast
  from assms(2,3) obtain g where g: "classify_age_group a = Inr g"
    using classify_age_group_succeeds by blast
  then obtain m where m: "map_of AGE_GROUP_MODIFIERS g = Some m"
    using age_group_lookup by blast
  have "filter (\<lambda>f. f \<notin> set (mod_avoid m)) base \<noteq> []"
    using base m by (rule filtered_frames_nonempty)
  then show ?thesis
    by (simp add: recommend_glasses_def recommend_glasses_with_known [OF base g m])
qed

theorem recommend_glasses_all_combinations_witness:
  "lower (strip ''Oval '') \<in>
             {''oval'', ''round'', ''square'', ''heart'', ''oblong'', ''diamond'', ''triangle''}
   \<and> (\<exists>r. recommend_glasses ''Oval '' 8 = Inr r \<and> recommended_frames r \<noteq> [])"
proof -
  have "lower (strip ''Oval '') = ''oval''"
    by code_simp
  then have h: "lower (strip ''Oval '') \<in>
             {''oval'', ''round'', ''square'', ''heart'', ''oblong'', ''diamond'', ''triangle''}"
    by simp
  show ?thesis 
    using h recommend_glasses_all_combinations [OF h, of 8] by simp
qed

text \<open>
  C2. For every input whose normalized face shape has the base frame list \<open>base\<close> in
  \<open>FACE_SHAPE_FRAMES\<close> and every age from 0 to 150, \<open>recommend_glasses\<close> returns a
  recommendation whose \<open>frames_to_avoid\<close> is the avoid list of the age group's modifier
  entry and whose \<open>recommended_frames\<close> is \<open>base\<close> with exactly the entries of that list
  removed, the remaining entries in their original order. For \<open>square\<close>, \<open>rimless\<close> is
  not recommended at age 10 and is recommended at age 25.
\<close>

theorem recommended_frames_stable_filter:
  "(\<forall>s a base. map_of FACE_SHAPE_FRAMES (lower (strip s)) = Some base \<and> 0 \<le> a \<and> a \<le> 150 \<longrightarrow>
      (\<exists>r g m. recommend_glasses s a = Inr r \<and> classify_age_group a = Inr g
          \<and> map_of AGE_GROUP_MODIFIERS g = Some m
          \<and> frames_to_avoid r = mod_avoid m
          \<and> recommended_frames r = filter (\<lambda>f. f \<notin> set (frames_to_avoid r)) base
          \<and> subseq (recommended_frames r) base
          \<and> set (recommended_frames r) = set base - set (frames_to_avoid r)))
   \<and> (case recommend_glasses ''square'' 10 of
        Inl e \<Rightarrow> False | Inr r \<Rightarrow> ''rimless'' \<notin> set (recommended_frames r))
   \<and> (case recommend_glasses ''square'' 25 of
        Inl e \<Rightarrow> False | Inr r \<Rightarrow> ''rimless'' \<in> set (recommended_frames r))"
proof (intro conjI allI impI)
  fix s :: string and a :: int and base :: "string list"
  assume h: "map_of FACE_SHAPE_FRAMES (lower (strip s)) = Some base \<and> 0 \<le> a \<and> a \<le> 150"
  then have base: "map_of FACE_SHAPE_FRAMES (lower (strip s)) = Some base"
    by simp
  from h obtain g where g: "classify_age_group a = Inr g"
    using classify_age_group_succeeds by blast
  then obtain m where m: "map_of AGE_GROUP_MODIFIERS g = Some m"
    using age_group_lookup by blast
  let ?r = "\<lparr>face_shape = lower (strip s), age = a, age_group = g,
                recommended_frames = filter (\<lambda>f. f \<notin> set (mod_avoid m)) base,
                preferred_features = mod_prefer m, frames_to_avoid = mod_avoid m,
                fit_notes = mod_fit_notes m,
                lens_suggestions = dict_get AGE_LENS_SUGGESTIONS g []\<rparr>"
  have r: "recommend_glasses s a = Inr ?r"
    by (simp add: recommend_glasses_def recommend_glasses_with_known [OF base g m])
  have "frames_to_avoid ?r = mod_avoid m
          \<and> recommended_frames ?r = filter (\<lambda>f. f \<notin> set (frames_to_avoid ?r)) base
          \<and> subseq (recommended_frames ?r) base
          \<and> set (recommended_frames ?r) = set base - set (frames_to_avoid ?r)"
    by auto
  with r g m
  show "\<exists>r g m. recommend_glasses s a = Inr r \<and> classify_age_group a = Inr g
          \<and> map_of AGE_GROUP_MODIFIERS g = Some m
          \<and> frames_to_avoid r = mod_avoid m
          \<and> recommended_frames r = filter (\<lambda>f. f \<notin> set (frames_to_avoid r)) base
          \<and> subseq (recommended_frames r) base
          \<and> set (recommended_frames r) = set base - set (frames_to_avoid r)"
    by blast
next
  show "case recommend_glasses ''square'' 10 of
        Inl e \<Rightarrow> False | Inr r \<Rightarrow> ''rimless'' \<notin> set (recommended_frames r)"
    by code_simp
next
  show "case recommend_glasses ''square'' 25 of
        Inl e \<Rightarrow> False | Inr r \<Rightarrow> ''rimless'' \<in> set (recommended_frames r)"
    by code_simp
qed

theorem recommended_frames_stable_filter_witness:
  "map_of FACE_SHAPE_FRAMES (lower (strip ''SQUARE ''))
     = Some [''round'', ''oval'', ''rimless'', ''cat-eye'', ''aviator'']
   \<and> (0::int) \<le> 10 \<and> (10::int) \<le> 150
   \<and> (\<exists>r. recommend_glasses ''SQUARE '' 10 = Inr r
          \<and> frames_to_avoid r = [''rimless'', ''large frames'', ''heavy metal frames'']
          \<and> recommended_frames r = [''round'', ''oval'', ''cat-eye'', ''aviator''])"
proof -
  have n: "lower (strip ''SQUARE '') = ''square''"
    by code_simp
  have b: "map_of FACE_SHAPE_FRAMES (lower (strip ''SQUARE ''))
             = Some [''round'', ''oval'', ''rimless'', ''cat-eye'', ''aviator'']"
    unfolding n by (simp add: FACE_SHAPE_FRAMES_def)
  have c: "classify_age_group 10 = Inr ''child''"
    by (simp add: classify_age_group_in_range)
  have "\<exists>r g m. recommend_glasses ''SQUARE '' 10 = Inr r \<and> classify_age_group 10 = Inr g
          \<and> map_of AGE_GROUP_MODIFIERS g = Some m
          \<and> frames_to_avoid r = mod_avoid m
          \<and> recommended_frames r = filter (\<lambda>f. f \<notin> set (frames_to_avoid r))
                [''round'', ''oval'', ''rimless'', ''cat-eye'', ''aviator'']
          \<and> subseq (recommended_frames r) [''round'', ''oval'', ''rimless'', ''cat-eye'', ''aviator'']
          \<and> set (recommended_frames r)
              = set [''round'', ''oval'', ''rimless'', ''cat-eye'', ''aviator'']
                - set (frames_to_avoid r)"
    using b
    by (intro recommended_frames_stable_filter [THEN conjunct1, rule_format]) simp
  then obtain r g m where r: "recommend_glasses ''SQUARE '' 10 = Inr r"
    and g: "classify_age_group 10 = Inr g"
    and m: "map_of AGE_GROUP_MODIFIERS g = Some m"
    and av: "frames_to_avoid r = mod_avoid m"
    and rf: "recommended_frames r = filter (\<lambda>f. f \<notin> set (frames_to_avoid r))
               [''round'', ''oval'', ''rimless'', ''cat-eye'', ''aviator'']"
    by blast
  from g c have "g = ''child''"
    by simp
  with m have "mod_avoid m = [''rimless'', ''large frames'', ''heavy metal frames'']"
    by (clarsimp simp: AGE_GROUP_MODIFIERS_def)
  with av rf have "frames_to_avoid r = [''rimless'', ''large frames'', ''heavy metal frames'']
      \<and> recommended_frames r = [''round'', ''oval'', ''cat-eye'', ''aviator'']"
    by simp
  with r b show ?thesis
    by simp
qed

lemma recommend_glasses_with_InrD:
  assumes "recommend_glasses_with lens s a = Inr r"
  shows "\<exists>base g m. map_of FACE_SHAPE_FRAMES (lower (strip s)) = Some base
           \<and> classify_age_group a = Inr g \<and> map_of AGE_GROUP_MODIFIERS g = Some m"
proof -
  have k: "dict_contains FACE_SHAPE_FRAMES (lower (strip s))"
    using assms by (cases "dict_contains FACE_SHAPE_FRAMES (lower (strip s))")
      (simp_all add: recommend_glasses_with_unknown)
  then obtain base where base: "map_of FACE_SHAPE_FRAMES (lower (strip s)) = Some base"
    by (auto simp: dict_contains_def)
  obtain g where g: "classify_age_group a = Inr g"
    using assms k by (cases "classify_age_group a") (simp_all add: recommend_glasses_with_age_error)
  then obtain m where "map_of AGE_GROUP_MODIFIERS g = Some m"
    using age_group_lookup by blast
  with base g show ?thesis
    by blast
qed

lemma classify_age_group_Inr_iff:
  "(\<exists>g. classify_age_group a = Inr g) \<longleftrightarrow> 0 \<le> a \<and> a \<le> 150"
proof
  assume "\<exists>g. classify_age_group a = Inr g"
  then show "0 \<le> a \<and> a \<le> 150"
    by (cases "a < 0"; cases "150 < a")
       (simp_all add: classify_age_group_def AGE_GROUPS_def)
next
  assume "0 \<le> a \<and> a \<le> 150"
  then show "\<exists>g. classify_age_group a = Inr g"
    by (simp add: classify_age_group_succeeds)
qed

text \<open>
  C7. Whatever the lens table, a successful call returns a recommendation whose
  \<open>face_shape\<close> is the normalized input, whose \<open>age\<close> is the input age, whose
  \<open>age_group\<close> is the classified group, whose \<open>recommended_frames\<close> are filtered from
  the shape's base frames, whose \<open>preferred_features\<close>, \<open>frames_to_avoid\<close> and
  \<open>fit_notes\<close> are those of the group's modifier entry, and whose \<open>lens_suggestions\<close>
  is the lens table's entry for the group, or the empty list when the table has none.
  Whether the call succeeds depends on the face shape and the age only, not on the lens
  table: a missing lens entry does not make the call fail.
\<close>

theorem recommendation_fields_populated:
  "(\<forall>lens s a r. recommend_glasses_with lens s a = Inr r \<longrightarrow>
      face_shape r = lower (strip s) \<and> age r = a \<and> classify_age_group a = Inr (age_group r)
      \<and> (\<exists>base m. map_of FACE_SHAPE_FRAMES (face_shape r) = Some base
             \<and> map_of AGE_GROUP_MODIFIERS (age_group r) = Some m
             \<and> recommended_frames r = filter (\<lambda>f. f \<notin> set (mod_avoid m)) base
             \<and> preferred_features r = mod_prefer m
             \<and> frames_to_avoid r = mod_avoid m
             \<and> fit_notes r = mod_fit_notes m)
      \<and> lens_suggestions r = (case map_of lens (age_group r) of Some l \<Rightarrow> l | None \<Rightarrow> []))
   \<and> (\<forall>lens s a. (\<exists>r. recommend_glasses_with lens s a = Inr r) \<longleftrightarrow>
         lower (strip s) \<in>
           {''oval'', ''round'', ''square'', ''heart'', ''oblong'', ''diamond'', ''triangle''}
         \<and> 0 \<le> a \<and> a \<le> 150)
   \<and> (\<forall>s a. recommend_glasses s a = recommend_glasses_with AGE_LENS_SUGGESTIONS s a)"
proof (intro conjI allI impI)
  fix lens :: "(string \<times> string list) list" and s :: string and a :: int
    and r :: GlassRecommendation
  assume r: "recommend_glasses_with lens s a = Inr r"
  from recommend_glasses_with_InrD [OF r] obtain base g m
    where base: "map_of FACE_SHAPE_FRAMES (lower (strip s)) = Some base"
      and g: "classify_age_group a = Inr g" and m: "map_of AGE_GROUP_MODIFIERS g = Some m"
    by blast
  have eq: "r = \<lparr>face_shape = lower (strip s), age = a, age_group = g,
                recommended_frames = filter (\<lambda>f. f \<notin> set (mod_avoid m)) base,
                preferred_features = mod_prefer m, frames_to_avoid = mod_avoid m,
                fit_notes = mod_fit_notes m, lens_suggestions = dict_get lens g []\<rparr>"
    using r by (simp add: recommend_glasses_with_known [OF base g m])
  show "face_shape r = lower (strip s)" by (simp add: eq)
  show "age r = a" by (simp add: eq)
  show "classify_age_group a = Inr (age_group r)" by (simp add: eq g)
  show "lens_suggestions r = (case map_of lens (age_group r) of Some l \<Rightarrow> l | None \<Rightarrow> [])"
    by (simp add: eq dict_get_def split: option.splits)
  have "map_of FACE_SHAPE_FRAMES (face_shape r) = Some base
             \<and> map_of AGE_GROUP_MODIFIERS (age_group r) = Some m
             \<and> recommended_frames r = filter (\<lambda>f. f \<notin> set (mod_avoid m)) base
             \<and> preferred_features r = mod_prefer m
             \<and> frames_to_avoid r = mod_avoid m
             \<and> fit_notes r = mod_fit_notes m"
    by (simp add: eq base m)
  then show "\<exists>base m. map_of FACE_SHAPE_FRAMES (face_shape r) = Some base
             \<and> map_of AGE_GROUP_MODIFIERS (age_group r) = Some m
             \<and> recommended_frames r = filter (\<lambda>f. f \<notin> set (mod_avoid m)) base
             \<and> preferred_features r = mod_prefer m
             \<and> frames_to_avoid r = mod_avoid m
             \<and> fit_notes r = mod_fit_notes m"
    by blast
next
  fix lens :: "(string \<times> string list) list" and s :: string and a :: int
  show "(\<exists>r. recommend_glasses_with lens s a = Inr r) \<longleftrightarrow>
         lower (strip s) \<in>
           {''oval'', ''round'', ''square'', ''heart'', ''oblong'', ''diamond'', ''triangle''}
         \<and> 0 \<le> a \<and> a \<le> 150"
  proof
    assume "\<exists>r. recommend_glasses_with lens s a = Inr r"
    then obtain base g where "map_of FACE_SHAPE_FRAMES (lower (strip s)) = Some base"
      and "classify_age_group a = Inr g"
      using recommend_glasses_with_InrD by blast
    then have "dict_contains FACE_SHAPE_FRAMES (lower (strip s))"
      and "\<exists>g. classify_age_group a = Inr g"
      by (simp_all add: dict_contains_def)
    then show "lower (strip s) \<in>
           {''oval'', ''round'', ''square'', ''heart'', ''oblong'', ''diamond'', ''triangle''}
         \<and> 0 \<le> a \<and> a \<le> 150"
      by (simp only: dict_contains_FACE_SHAPE_FRAMES classify_age_group_Inr_iff)
  next
    assume h: "lower (strip s) \<in>
           {''oval'', ''round'', ''square'', ''heart'', ''oblong'', ''diamond'', ''triangle''}
         \<and> 0 \<le> a \<and> a \<le> 150"
    then obtain base where base: "map_of FACE_SHAPE_FRAMES (lower (strip s)) = Some base"
      using supported_shape_lookup by blast
    from h obtain g where g: "classify_age_group a = Inr g"
      using classify_age_group_succeeds by blast
    then obtain m where m: "map_of AGE_GROUP_MODIFIERS g = Some m"
      using age_group_lookup by blast
    show "\<exists>r. recommend_glasses_with lens s a = Inr r"
      by (simp add: recommend_glasses_with_known [OF base g m])
  qed
next
  fix s :: string and a :: int
  show "recommend_glasses s a = recommend_glasses_with AGE_LENS_SUGGESTIONS s a"
    by (simp add: recommend_glasses_def)
qed

theorem recommendation_fields_populated_witness:
  "\<exists>r. recommend_glasses_with [] ''oval'' 8 = Inr r \<and> lens_suggestions r = []
       \<and> face_shape r = ''oval'' \<and> age r = 8 \<and> age_group r = ''child''"
proof -
  have n: "lower (strip ''oval'') = ''oval''"
    by code_simp
  have c: "classify_age_group 8 = Inr ''child''"
    by (simp add: classify_age_group_in_range)
  have "\<exists>r. recommend_glasses_with [] ''oval'' 8 = Inr r"
    using recommendation_fields_populated [THEN conjunct2, THEN conjunct1, rule_format,
        of "[]" "''oval''" 8]
    by (simp add: n)
  then obtain r where r: "recommend_glasses_with [] ''oval'' 8 = Inr r"
    by blast
  from recommendation_fields_populated [THEN conjunct1, rule_format, OF r]
  have "face_shape r = ''oval'' \<and> age r = 8 \<and> age_group r = ''child''
          \<and> lens_suggestions r = []"
    by (simp add: n c)
  with r show ?thesis
    by blast
qed

lemma unknown_face_shape_message_text:
  "unknown_face_shape_message k =
     ''Unknown face shape '' @ [CHR 0x27] @ k @ [CHR 0x27] @
     ''. Supported shapes: ['oval', 'round', 'square', 'heart', 'oblong', 'diamond', 'triangle']''"
  by (simp add: unknown_face_shape_message_def repr_str_list_def FACE_SHAPE_FRAMES_def)

text \<open>
  C5. For every input whose stripped and lowercased form is none of the 7 supported labels,
  and every age, \<open>recommend_glasses\<close> raises the \<open>ValueError\<close> whose message quotes that
  normalized form and lists the supported shapes; \<open>recommend_glasses "hexagon" 30\<close> does.
\<close>

theorem unknown_face_shape_error:
  "(\<forall>s a. lower (strip s) \<notin>
             {''oval'', ''round'', ''square'', ''heart'', ''oblong'', ''diamond'', ''triangle''}
      \<longrightarrow> recommend_glasses s a =
            Inl (ValueError (''Unknown face shape '' @ [CHR 0x27] @ lower (strip s) @ [CHR 0x27] @
              ''. Supported shapes: '' @
              ''['oval', 'round', 'square', 'heart', 'oblong', 'diamond', 'triangle']'')))
   \<and> recommend_glasses ''hexagon'' 30 =
        Inl (ValueError (''Unknown face shape 'hexagon'. Supported shapes: '' @
              ''['oval', 'round', 'square', 'heart', 'oblong', 'diamond', 'triangle']''))"
proof (intro conjI allI impI)
  fix s :: string and a :: int
  assume "lower (strip s) \<notin>
             {''oval'', ''round'', ''square'', ''heart'', ''oblong'', ''diamond'', ''triangle''}"
  then have "\<not> dict_contains FACE_SHAPE_FRAMES (lower (strip s))"
    by (simp only: dict_contains_FACE_SHAPE_FRAMES not_False_eq_True)
  then show "recommend_glasses s a =
            Inl (ValueError (''Unknown face shape '' @ [CHR 0x27] @ lower (strip s) @ [CHR 0x27] @
              ''. Supported shapes: '' @
              ''['oval', 'round', 'square', 'heart', 'oblong', 'diamond', 'triangle']''))"
    by (simp add: recommend_glasses_def recommend_glasses_with_unknown
          unknown_face_shape_message_text)
next
  show "recommend_glasses ''hexagon'' 30 =
        Inl (ValueError (''Unknown face shape 'hexagon'. Supported shapes: '' @
              ''['oval', 'round', 'square', 'heart', 'oblong', 'diamond', 'triangle']''))"
    by code_simp
qed

theorem unknown_face_shape_error_witness:
  "lower (strip '' Hexagon'') \<notin>
             {''oval'', ''round'', ''square'', ''heart'', ''oblong'', ''diamond'', ''triangle''}
   \<and> recommend_glasses '' Hexagon'' 30 =
        Inl (ValueError (''Unknown face shape 'hexagon'. Supported shapes: '' @
              ''['oval', 'round', 'square', 'heart', 'oblong', 'diamond', 'triangle']''))"
proof -
  have n: "lower (strip '' Hexagon'') = ''hexagon''"
    by code_simp
  then have h: "lower (strip '' Hexagon'') \<notin>
             {''oval'', ''round'', ''square'', ''heart'', ''oblong'', ''diamond'', ''triangle''}"
    by simp
  from unknown_face_shape_error [THEN conjunct1, rule_format, OF h, of 30] h
  show ?thesis
    by (simp add: n)
qed

lemma classify_age_group_error:
  assumes "classify_age_group a = Inl e"
  shows "e = ValueError (''Age must be non-negative, got '' @ str_int a)
       \<or> e = ValueError (''Could not classify age '' @ str_int a)"
  using assms by (auto simp: classify_age_group_def split: if_splits option.splits)

text \<open>
  C10. The face shape is validated before the age is classified: for an input whose
  normalized face shape is not supported, the call raises the unknown-face-shape error
  whatever the age, and when \<open>classify_age_group\<close> would raise for that age, the error of
  the call is not that one. With \<open>hexagon\<close> and the age -5 the call raises the
  unknown-face-shape error, although -5 alone is rejected by \<open>classify_age_group\<close>.
\<close>

theorem face_shape_validated_before_age:
  "(\<forall>s a. lower (strip s) \<notin>
             {''oval'', ''round'', ''square'', ''heart'', ''oblong'', ''diamond'', ''triangle''}
      \<longrightarrow> recommend_glasses s a = Inl (ValueError (unknown_face_shape_message (lower (strip s))))
          \<and> prefix ''Unknown face shape '' (unknown_face_shape_message (lower (strip s)))
          \<and> (\<forall>e. classify_age_group a = Inl e \<longrightarrow> recommend_glasses s a \<noteq> Inl e))
   \<and> classify_age_group (- 5) = Inl (ValueError ''Age must be non-negative, got -5'')
   \<and> recommend_glasses ''hexagon'' (- 5) =
        Inl (ValueError (''Unknown face shape 'hexagon'. Supported shapes: '' @
              ''['oval', 'round', 'square', 'heart', 'oblong', 'diamond', 'triangle']''))"
proof (intro conjI allI impI)
  fix s :: string and a :: int
  assume "lower (strip s) \<notin>
             {''oval'', ''round'', ''square'', ''heart'', ''oblong'', ''diamond'', ''triangle''}"
  then have "\<not> dict_contains FACE_SHAPE_FRAMES (lower (strip s))"
    by (simp only: dict_contains_FACE_SHAPE_FRAMES not_False_eq_True)
  then show r: "recommend_glasses s a =
                  Inl (ValueError (unknown_face_shape_message (lower (strip s))))"
    by (simp add: recommend_glasses_def recommend_glasses_with_unknown)
  show "prefix ''Unknown face shape '' (unknown_face_shape_message (lower (strip s)))"
    by (simp add: unknown_face_shape_message_def)
  fix e
  assume "classify_age_group a = Inl e"
  then have "e = ValueError (''Age must be non-negative, got '' @ str_int a)
       \<or> e = ValueError (''Could not classify age '' @ str_int a)"
    by (rule classify_age_group_error)
  then show "recommend_glasses s a \<noteq> Inl e"
    by (elim disjE) (simp_all add: r unknown_face_shape_message_def)
next
  show "classify_age_group (- 5) = Inl (ValueError ''Age must be non-negative, got -5'')"
    by code_simp
next
  show "recommend_glasses ''hexagon'' (- 5) =
        Inl (ValueError (''Unknown face shape 'hexagon'. Supported shapes: '' @
              ''['oval', 'round', 'square', 'heart', 'oblong', 'diamond', 'triangle']''))"
    by code_simp
qed

theorem face_shape_validated_before_age_witness:
  "lower (strip ''Pentagon'') \<notin>
             {''oval'', ''round'', ''square'', ''heart'', ''oblong'', ''diamond'', ''triangle''}
   \<and> classify_age_group 200 = Inl (ValueError ''Could not classify age 200'')
   \<and> recommend_glasses ''Pentagon'' 200 \<noteq> Inl (ValueError ''Could not classify age 200'')
   \<and> recommend_glasses ''Pentagon'' 200 =
        Inl (ValueError (unknown_face_shape_message ''pentagon''))"
proof -
  have n: "lower (strip ''Pentagon'') = ''pentagon''"
    by code_simp
  then have h: "lower (strip ''Pentagon'') \<notin>
             {''oval'', ''round'', ''square'', ''heart'', ''oblong'', ''diamond'', ''triangle''}"
    by simp
  have c: "classify_age_group 200 = Inl (ValueError ''Could not classify age 200'')"
    by code_simp
  note t = face_shape_validated_before_age [THEN conjunct1, rule_format, OF h, of 200]
  have a1: "recommend_glasses ''Pentagon'' 200 =
          Inl (ValueError (unknown_face_shape_message ''pentagon''))"
    using t [THEN conjunct1] by (simp only: n)
  have a2: "recommend_glasses ''Pentagon'' 200 \<noteq> Inl (ValueError ''Could not classify age 200'')"
    using t [THEN conjunct2, THEN conjunct2, rule_format, OF c] .
  from h c a1 a2 show ?thesis
    by (intro conjI)
qed

lemma child_modifiers:
  assumes "map_of AGE_GROUP_MODIFIERS ''child'' = Some m"
  shows "mod_prefer m = [''flexible frames'', ''small fit'', ''rubber nose pads'',
                         ''polycarbonate lenses'']
       \<and> mod_fit_notes m = ''Small/petite fit; lightweight and durable materials are essential.''"
  using assms by (clarsimp simp: AGE_GROUP_MODIFIERS_def)

lemma senior_modifiers:
  assumes "map_of AGE_GROUP_MODIFIERS ''senior'' = Some m"
  shows "mod_prefer m = [''progressive-lens ready'', ''lightweight frames'', ''wide fit'',
                       ''high nose bridge'', ''spring hinges'']
       \<and> mod_fit_notes m =
           ''Wide fit with spring hinges; frames should accommodate progressive or '' @
           ''bifocal lenses. Lightweight materials (titanium, memory metal) reduce fatigue.''"
  using assms by (clarsimp simp: AGE_GROUP_MODIFIERS_def)

lemma child_and_senior_differ:
  assumes "lower (strip s) \<in>
             {''oval'', ''round'', ''square'', ''heart'', ''oblong'', ''diamond'', ''triangle''}"
    and "0 \<le> c" and "c \<le> 12" and "60 \<le> n" and "n \<le> 150"
  shows "\<exists>r1 r2. recommend_glasses s c = Inr r1 \<and> recommend_glasses s n = Inr r2
           \<and> age_group r1 = ''child'' \<and> age_group r2 = ''senior''
           \<and> fit_notes r1 \<noteq> fit_notes r2
           \<and> preferred_features r1 \<noteq> preferred_features r2"
proof -
  from assms(1) obtain base where base: "map_of FACE_SHAPE_FRAMES (lower (strip s)) = Some base"
    using supported_shape_lookup by blast
  have c: "classify_age_group c = Inr ''child''"
    using assms(2,3) by (simp add: classify_age_group_in_range)
  have n: "classify_age_group n = Inr ''senior''"
    using assms(4,5) by (simp add: classify_age_group_in_range)
  from c obtain mc where mc: "map_of AGE_GROUP_MODIFIERS ''child'' = Some mc"
    using age_group_lookup by blast
  from n obtain ms where ms: "map_of AGE_GROUP_MODIFIERS ''senior'' = Some ms"
    using age_group_lookup by blast
  have "mod_fit_notes mc \<noteq> mod_fit_notes ms" and "mod_prefer mc \<noteq> mod_prefer ms"
    using child_modifiers [OF mc] senior_modifiers [OF ms] by simp_all
  then show ?thesis
    by (simp add: recommend_glasses_def recommend_glasses_with_known [OF base c mc]
          recommend_glasses_with_known [OF base n ms])
qed

text \<open>
  C8. Age groups differentiate the output: the \<open>preferred_features\<close> (and the
  \<open>fit_notes\<close>) returned for \<open>oval\<close> at age 8 differ from those returned for \<open>oval\<close>
  at age 70, and for every input whose normalized face shape is supported, every child age
  (0-12) and every senior age (60-150), both calls succeed and their \<open>fit_notes\<close> differ.
\<close>

theorem age_groups_differentiate:
  "(\<exists>r1 r2. recommend_glasses ''oval'' 8 = Inr r1 \<and> recommend_glasses ''oval'' 70 = Inr r2
        \<and> preferred_features r1 \<noteq> preferred_features r2 \<and> fit_notes r1 \<noteq> fit_notes r2)
   \<and> (\<forall>s c n. lower (strip s) \<in>
                 {''oval'', ''round'', ''square'', ''heart'', ''oblong'', ''diamond'', ''triangle''}
               \<and> 0 \<le> c \<and> c \<le> 12 \<and> 60 \<le> n \<and> n \<le> 150 \<longrightarrow>
         (\<exists>r1 r2. recommend_glasses s c = Inr r1 \<and> recommend_glasses s n = Inr r2
            \<and> age_group r1 = ''child'' \<and> age_group r2 = ''senior''
            \<and> fit_notes r1 \<noteq> fit_notes r2))"
proof (intro conjI allI impI)
  have "lower (strip ''oval'') = ''oval''"
    by code_simp
  then have "lower (strip ''oval'') \<in>
             {''oval'', ''round'', ''square'', ''heart'', ''oblong'', ''diamond'', ''triangle''}"
    by simp
  from child_and_senior_differ [OF this, of 8 70]
  show "\<exists>r1 r2. recommend_glasses ''oval'' 8 = Inr r1 \<and> recommend_glasses ''oval'' 70 = Inr r2
        \<and> preferred_features r1 \<noteq> preferred_features r2 \<and> fit_notes r1 \<noteq> fit_notes r2"
    by auto
next
  fix s :: string and c n :: int
  assume "lower (strip s) \<in>
                 {''oval'', ''round'', ''square'', ''heart'', ''oblong'', ''diamond'', ''triangle''}
               \<and> 0 \<le> c \<and> c \<le> 12 \<and> 60 \<le> n \<and> n \<le> 150"
  then have "\<exists>r1 r2. recommend_glasses s c = Inr r1 \<and> recommend_glasses s n = Inr r2
           \<and> age_group r1 = ''child'' \<and> age_group r2 = ''senior''
           \<and> fit_notes r1 \<noteq> fit_notes r2
           \<and> preferred_features r1 \<noteq> preferred_features r2"
    by (intro child_and_senior_differ) simp_all
  then show "\<exists>r1 r2. recommend_glasses s c = Inr r1 \<and> recommend_glasses s n = Inr r2
            \<and> age_group r1 = ''child'' \<and> age_group r2 = ''senior''
            \<and> fit_notes r1 \<noteq> fit_notes r2"
    by blast
qed

theorem age_groups_differentiate_witness:
  "lower (strip ''Heart'') \<in>
      {''oval'', ''round'', ''square'', ''heart'', ''oblong'', ''diamond'', ''triangle''}
   \<and> (0::int) \<le> 5 \<and> (5::int) \<le> 12 \<and> (60::int) \<le> 80 \<and> (80::int) \<le> 150
   \<and> (\<exists>r1 r2. recommend_glasses ''Heart'' 5 = Inr r1 \<and> recommend_glasses ''Heart'' 80 = Inr r2
            \<and> age_group r1 = ''child'' \<and> age_group r2 = ''senior''
            \<and> fit_notes r1 \<noteq> fit_notes r2)"
proof -
  have "lower (strip ''Heart'') = ''heart''"
    by code_simp
  then have h: "lower (strip ''Heart'') \<in>
      {''oval'', ''round'', ''square'', ''heart'', ''oblong'', ''diamond'', ''triangle''}"
    by simp
  have "\<exists>r1 r2. recommend_glasses ''Heart'' 5 = Inr r1 \<and> recommend_glasses ''Heart'' 80 = Inr r2
            \<and> age_group r1 = ''child'' \<and> age_group r2 = ''senior''
            \<and> fit_notes r1 \<noteq> fit_notes r2"
    using h by (intro age_groups_differentiate [THEN conjunct2, rule_format]) simp
  with h show ?thesis
    by simp
qed

section \<open>Normalization of the face shape\<close>

lemma is_space_lower_char: "is_space (lower_char c) = is_space c"
  by (simp add: is_space_def lower_char_def Let_def)

lemma lower_char_idem: "lower_char (lower_char c) = lower_char c"
  by (simp add: lower_char_def Let_def)

lemma lower_idem: "lower (lower s) = lower s"
  by (simp add: lower_def lower_char_idem)

lemma dropWhile_is_space_lower:
  "dropWhile is_space (map lower_char s) = map lower_char (dropWhile is_space s)"
  by (induction s) (simp_all add: is_space_lower_char)

lemma strip_lower: "strip (lower s) = lower (strip s)"
  by (simp only: strip_def lower_def dropWhile_is_space_lower rev_map)

lemma dropWhile_fixed:
  assumes "xs = [] \<or> \<not> P (hd xs)"
  shows "dropWhile P xs = xs"
  using assms by (cases xs) simp_all

lemma hd_rev_dropWhile_rev:
  assumes "xs \<noteq> []" and "\<not> P (hd xs)"
  shows "rev (dropWhile P (rev xs)) \<noteq> [] \<and> hd (rev (dropWhile P (rev xs))) = hd xs"
proof (cases xs)
  case Nil
  with assms show ?thesis by simp
next
  case (Cons x rest)
  with assms have x: "\<not> P x" by simp
  have "dropWhile P (rev rest @ [x]) = dropWhile P (rev rest) @ [x]"
    using x by (simp add: dropWhile_append)
  then show ?thesis
    using Cons by simp
qed

lemma strip_idem: "strip (strip s) = strip s"
proof -
  let ?t = "dropWhile is_space s"
  have t: "?t = [] \<or> \<not> is_space (hd ?t)"
    using hd_dropWhile [of is_space s] by blast
  have u: "strip s = [] \<or> \<not> is_space (hd (strip s))"
  proof (cases "?t = []")
    case True
    have "strip s = []"
      unfolding strip_def True by simp
    then show ?thesis by simp
  next
    case False
    with t have n: "\<not> is_space (hd ?t)" by blast
    from hd_rev_dropWhile_rev [of ?t is_space, OF False n] have "hd (strip s) = hd ?t"
      by (simp only: strip_def)
    with n show ?thesis by simp
  qed
  have "dropWhile is_space (strip s) = strip s"
    using u by (rule dropWhile_fixed)
  then show ?thesis
    by (simp add: strip_def [of "strip s"]) (simp add: strip_def)
qed

lemma normalize_idem: "lower (strip (lower (strip s))) = lower (strip s)"
  by (simp add: strip_lower [symmetric] lower_idem strip_idem)

lemma normalize_strip_lower: "lower (strip (strip (lower s))) = lower (strip s)"
  by (simp add: strip_idem strip_lower lower_idem)

lemma recommend_glasses_with_cong:
  assumes "lower (strip s) = lower (strip t)"
  shows "recommend_glasses_with lens s a = recommend_glasses_with lens t a"
  using assms by (simp add: recommend_glasses_with_def)

text \<open>
  C6. Face-shape matching is insensitive to case and to surrounding whitespace: for every
  string \<open>s\<close> and every age, \<open>recommend_glasses\<close> gives the same result (the same
  recommendation, field by field, or the same error) on \<open>s\<close>, on \<open>s\<close> lowercased and
  then stripped, and on \<open>s\<close> stripped and then lowercased. The calls with \<open>" Round "\<close>
  and \<open>"round"\<close> at age 25 return the same recommendation.
\<close>

theorem face_shape_matching_insensitive:
  "recommend_glasses s a = recommend_glasses (strip (lower s)) a
   \<and> recommend_glasses s a = recommend_glasses (lower (strip s)) a
   \<and> recommend_glasses '' Round '' 25 = recommend_glasses ''round'' 25
   \<and> (case recommend_glasses ''round'' 25 of
         Inl e \<Rightarrow> False | Inr r \<Rightarrow> face_shape r = ''round'' \<and> age_group r = ''young_adult'')"
proof (intro conjI)
  show "recommend_glasses s a = recommend_glasses (strip (lower s)) a"
    unfolding recommend_glasses_def
    by (rule recommend_glasses_with_cong) (simp only: normalize_strip_lower)
  show "recommend_glasses s a = recommend_glasses (lower (strip s)) a"
    unfolding recommend_glasses_def
    by (rule recommend_glasses_with_cong) (simp only: normalize_idem)
  show "recommend_glasses '' Round '' 25 = recommend_glasses ''round'' 25"
    by code_simp
  show "case recommend_glasses ''round'' 25 of
         Inl e \<Rightarrow> False | Inr r \<Rightarrow> face_shape r = ''round'' \<and> age_group r = ''young_adult''"
    by code_simp
qed

section \<open>Errors of the age classification\<close>

lemma digit_char_code:
  assumes "d < 10"
  shows "(of_char (digit_char d) :: nat) = 48 + d"
proof -
  from assms have "d = 0 \<or> d = 1 \<or> d = 2 \<or> d = 3 \<or> d = 4 \<or> d = 5 \<or> d = 6 \<or> d = 7
      \<or> d = 8 \<or> d = 9"
    by arith
  then show ?thesis
    by (elim disjE) (simp_all add: digit_char_def)
qed

lemma digit_char_inj:
  assumes "d < 10" and "d' < 10" and "digit_char d = digit_char d'"
  shows "d = d'"
proof -
  have "(of_char (digit_char d) :: nat) = of_char (digit_char d')"
    using assms(3) by simp
  then show ?thesis
    using assms(1,2) by (simp add: digit_char_code)
qed

lemma str_nat_nonempty: "str_nat n \<noteq> []"
  by (subst str_nat.simps) simp

lemma str_nat_digits:
  assumes "c \<in> set (str_nat n)"
  shows "48 \<le> (of_char c :: nat) \<and> (of_char c :: nat) \<le> 57"
  using assms
proof (induction n rule: str_nat.induct)
  case (1 n)
  show ?case
  proof (cases "n < 10")
    case True
    with "1.prems" have "c = digit_char n"
      by (simp add: str_nat.simps [of n])
    with True show ?thesis
      by (simp add: digit_char_code)
  next
    case False
    with "1.prems" have "c \<in> set (str_nat (n div 10)) \<or> c = digit_char (n mod 10)"
      by (auto simp: str_nat.simps [of n])
    then show ?thesis
    proof
      assume "c \<in> set (str_nat (n div 10))"
      with False "1.IH" show ?thesis by simp
    next
      assume "c = digit_char (n mod 10)"
      then show ?thesis by (simp add: digit_char_code)
    qed
  qed
qed

lemma str_nat_inj:
  assumes "str_nat n = str_nat m"
  shows "n = m"
  using assms
proof (induction n arbitrary: m rule: str_nat.induct)
  case (1 n)
  show ?case
  proof (cases "n < 10")
    case n: True
    show ?thesis
    proof (cases "m < 10")
      case True
      with n "1.prems" have "digit_char n = digit_char m"
        by (simp add: str_nat.simps [of n] str_nat.simps [of m])
      with n True show ?thesis
        by (rule digit_char_inj)
    next
      case False
      with n "1.prems" have "[digit_char n] = str_nat (m div 10) @ [digit_char (m mod 10)]"
        by (simp add: str_nat.simps [of n] str_nat.simps [of m])
      then have "str_nat (m div 10) = []"
        by simp
      then show ?thesis
        by (simp add: str_nat_nonempty)
    qed
  next
    case n: False
    show ?thesis
    proof (cases "m < 10")
      case True
      with n "1.prems" have "str_nat (n div 10) @ [digit_char (n mod 10)] = [digit_char m]"
        by (simp add: str_nat.simps [of n] str_nat.simps [of m])
      then have "str_nat (n div 10) = []"
        by simp
      then show ?thesis
        by (simp add: str_nat_nonempty)
    next
      case False
      with n "1.prems"
      have "str_nat (n div 10) @ [digit_char (n mod 10)]
              = str_nat (m div 10) @ [digit_char (m mod 10)]"
        by (simp add: str_nat.simps [of n] str_nat.simps [of m])
      then have a: "str_nat (n div 10) = str_nat (m div 10)"
        and b: "digit_char (n mod 10) = digit_char (m mod 10)"
        by simp_all
      from n a have "n div 10 = m div 10"
        by (rule "1.IH")
      moreover have "n mod 10 = m mod 10"
        using b by (intro digit_char_inj) simp_all
      ultimately show ?thesis
        by (metis div_mult_mod_eq)
    qed
  qed
qed

lemma str_nat_no_minus: "CHR ''-'' # cs \<noteq> str_nat n"
proof
  assume "CHR ''-'' # cs = str_nat n"
  then have "CHR ''-'' \<in> set (str_nat n)"
    by (metis list.set_intros(1))
  from str_nat_digits [OF this] show False
    by simp
qed

lemma str_int_inj:
  assumes "str_int a = str_int b"
  shows "a = b"
proof (cases "a < 0"; cases "b < 0")
  assume "a < 0" and "b < 0"
  with assms have "str_nat (nat (- a)) = str_nat (nat (- b))"
    by (simp add: str_int_def)
  then have "nat (- a) = nat (- b)"
    by (rule str_nat_inj)
  with \<open>a < 0\<close> \<open>b < 0\<close> show ?thesis
    by simp
next
  assume "a < 0" and "\<not> b < 0"
  with assms have "CHR ''-'' # str_nat (nat (- a)) = str_nat (nat b)"
    by (simp add: str_int_def)
  then show ?thesis
    by (simp add: str_nat_no_minus)
next
  assume "\<not> a < 0" and "b < 0"
  with assms have "CHR ''-'' # str_nat (nat (- b)) = str_nat (nat a)"
    by (simp add: str_int_def)
  then show ?thesis
    by (simp add: str_nat_no_minus)
next
  assume "\<not> a < 0" and "\<not> b < 0"
  with assms have "str_nat (nat a) = str_nat (nat b)"
    by (simp add: str_int_def)
  then have "nat a = nat b"
    by (rule str_nat_inj)
  with \<open>\<not> a < 0\<close> \<open>\<not> b < 0\<close> show ?thesis
    by simp
qed


lemma classify_loop_AGE_GROUPS_None:
  "classify_loop AGE_GROUPS a = None \<longleftrightarrow> a < 0 \<or> 150 < a"
  by (auto simp: AGE_GROUPS_def)

text \<open>
  C4. \<open>classify_age_group\<close> raises exactly for the ages outside 0-150. A negative age
  raises the \<open>ValueError\<close> whose message is \<open>Age must be non-negative, got\<close> followed by
  the decimal rendering of the age; no range of \<open>AGE_GROUPS\<close> holds the age exactly when
  the age is negative or above 150, and an age above 150 raises the \<open>ValueError\<close> of the
  last line, whose message also ends in the rendering of the age. The rendering determines
  the age (\<open>str_int\<close> is injective), so the message identifies the offending value. For
  every age from 0 to 150 a label is returned.
\<close>

theorem classify_age_group_errors:
  "(a < 0 \<longrightarrow>
      classify_age_group a = Inl (ValueError (''Age must be non-negative, got '' @ str_int a)))
   \<and> (150 < a \<longrightarrow>
      classify_age_group a = Inl (ValueError (''Could not classify age '' @ str_int a)))
   \<and> ((\<exists>e. classify_age_group a = Inl e) \<longleftrightarrow> a < 0 \<or> 150 < a)
   \<and> ((\<exists>g. classify_age_group a = Inr g) \<longleftrightarrow> 0 \<le> a \<and> a \<le> 150)
   \<and> (classify_loop AGE_GROUPS a = None \<longleftrightarrow> a < 0 \<or> 150 < a)
   \<and> (\<forall>b. str_int a = str_int b \<longrightarrow> a = b)
   \<and> classify_age_group (- 1) = Inl (ValueError ''Age must be non-negative, got -1'')"
proof (intro conjI allI impI)
  assume "a < 0"
  then show "classify_age_group a =
               Inl (ValueError (''Age must be non-negative, got '' @ str_int a))"
    by (simp add: classify_age_group_def)
next
  assume h: "150 < a"
  then have "classify_loop AGE_GROUPS a = None"
    by (simp add: classify_loop_AGE_GROUPS_None)
  with h show "classify_age_group a = Inl (ValueError (''Could not classify age '' @ str_int a))"
    by (simp add: classify_age_group_def)
next
  show inr: "(\<exists>g. classify_age_group a = Inr g) \<longleftrightarrow> 0 \<le> a \<and> a \<le> 150"
    by (rule classify_age_group_Inr_iff)
  have "(\<exists>e. classify_age_group a = Inl e) \<longleftrightarrow> \<not> (\<exists>g. classify_age_group a = Inr g)"
    by (cases "classify_age_group a") simp_all
  with inr show "(\<exists>e. classify_age_group a = Inl e) \<longleftrightarrow> a < 0 \<or> 150 < a"
    by auto
next
  show "classify_loop AGE_GROUPS a = None \<longleftrightarrow> a < 0 \<or> 150 < a"
    by (rule classify_loop_AGE_GROUPS_None)
next
  fix b
  assume "str_int a = str_int b"
  then show "a = b"
    by (rule str_int_inj)
next
  show "classify_age_group (- 1) = Inl (ValueError ''Age must be non-negative, got -1'')"
    by code_simp
qed

theorem classify_age_group_errors_witness:
  "(- 7 :: int) < 0
   \<and> classify_age_group (- 7) = Inl (ValueError ''Age must be non-negative, got -7'')
   \<and> (150 :: int) < 151
   \<and> classify_age_group 151 = Inl (ValueError ''Could not classify age 151'')"
proof -
  have s7: "str_int (- 7) = ''-7''" and s151: "str_int 151 = ''151''"
    by code_simp+
  have h1: "(- 7 :: int) < 0" and h2: "(150 :: int) < 151"
    by simp_all
  from classify_age_group_errors [of "- 7", THEN conjunct1, rule_format, OF h1]
  have a: "classify_age_group (- 7) = Inl (ValueError ''Age must be non-negative, got -7'')"
    by (simp add: s7)
  from classify_age_group_errors [of 151, THEN conjunct2, THEN conjunct1, rule_format, OF h2]
  have b: "classify_age_group 151 = Inl (ValueError ''Could not classify age 151'')"
    by (simp add: s151)
  from h1 a h2 b show ?thesis
    by (intro conjI)
qed

section \<open>The summary text\<close>

lemma split_lines_no_newline:
  assumes "no_newline l"
  shows "split_lines l = [l]"
  using assms by (induction l) (auto simp: no_newline_def)

lemma split_lines_append_newline:
  assumes "no_newline l"
  shows "split_lines (l @ CHR 0x0A # rest) = l # split_lines rest"
  using assms by (induction l) (auto simp: no_newline_def)

lemma split_lines_join:
  assumes "xs \<noteq> []" and "list_all no_newline xs"
  shows "split_lines (join [CHR 0x0A] xs) = xs"
  using assms
proof (induction "[CHR 0x0A]" xs rule: join.induct)
  case 1
  then show ?case by simp
next
  case (2 x)
  then show ?case by (simp add: split_lines_no_newline)
next
  case (3 x y ys)
  then show ?case by (simp add: split_lines_append_newline)
qed

lemma no_newline_append: "no_newline (xs @ ys) \<longleftrightarrow> no_newline xs \<and> no_newline ys"
  by (auto simp: no_newline_def)

lemma no_newline_join:
  assumes "no_newline sep" and "list_all no_newline xs"
  shows "no_newline (join sep xs)"
  using assms
  by (induction sep xs rule: join.induct) (simp_all add: no_newline_append, simp add: no_newline_def)


lemma no_newline_str_int: "no_newline (str_int a)"
proof -
  have n: "CHR 0x0A \<notin> set (str_nat k)" for k
  proof
    assume "CHR 0x0A \<in> set (str_nat k)"
    from str_nat_digits [OF this] show False
      by simp
  qed
  show ?thesis
    by (simp add: str_int_def no_newline_def n)
qed

lemma summary_lines_no_newline:
  assumes "newline_free r"
  shows "list_all no_newline (summary_lines r)"
proof -
  have sep: "no_newline '', ''"
    by (simp add: no_newline_def)
  from assms have j: "no_newline (join '', '' (recommended_frames r))"
    "no_newline (join '', '' (preferred_features r))"
    "no_newline (join '', '' (frames_to_avoid r))"
    "no_newline (join '', '' (lens_suggestions r))"
    by (simp_all add: newline_free_def no_newline_join [OF sep])
  from assms have f: "no_newline (face_shape r)" "no_newline (age_group r)"
    "no_newline (fit_notes r)"
    by (simp_all add: newline_free_def)
  have l: "no_newline ''Face shape  : ''" "no_newline ''Age         : ''"
    "no_newline ''Frames      : ''" "no_newline ''Features    : ''"
    "no_newline ''Avoid       : ''" "no_newline ''Lenses      : ''"
    "no_newline ''Fit notes   : ''" "no_newline '' (''" "no_newline '')''"
    by (simp_all add: no_newline_def)
  show ?thesis
    unfolding summary_lines_def
    by (simp add: no_newline_append j f l no_newline_str_int del: append.simps)
qed

lemma split_lines_summary:
  assumes "newline_free r"
  shows "split_lines (summary r) = summary_lines r"
proof -
  have "summary_lines r \<noteq> []"
    by (simp add: summary_lines_def)
  then show ?thesis
    unfolding summary_def
    using summary_lines_no_newline [OF assms] by (rule split_lines_join)
qed

lemma sublist_join:
  assumes "l \<in> set xs"
  shows "sublist l (join sep xs)"
  using assms
proof (induction sep xs rule: join.induct)
  case (1 sep)
  then show ?case by simp
next
  case (2 sep x)
  then show ?case by simp
next
  case (3 sep x y ys)
  show ?case
  proof (cases "l = x")
    case True
    then show ?thesis
      by simp
  next
    case False
    with "3.prems" have "l \<in> set (y # ys)"
      by simp
    then have "sublist l (join sep (y # ys))"
      by (rule "3.IH")
    moreover have "sublist (join sep (y # ys)) ((x @ sep) @ join sep (y # ys))"
      by (rule sublist_append_leftI)
    ultimately have "sublist l ((x @ sep) @ join sep (y # ys))"
      by (rule sublist_order.order_trans)
    then show ?thesis
      by simp
  qed
qed

lemma sublist_summary:
  assumes "l \<in> set (summary_lines r)" and "sublist x l"
  shows "sublist x (summary r)"
proof -
  from assms(1) have "sublist l (summary r)"
    unfolding summary_def by (rule sublist_join)
  with assms(2) show ?thesis
    by (rule sublist_order.order_trans)
qed

lemma summary_contains_fields:
  "sublist (face_shape r) (summary r)" "sublist (age_group r) (summary r)"
  "sublist (fit_notes r) (summary r)"
proof -
  have "''Face shape  : '' @ face_shape r \<in> set (summary_lines r)"
    by (simp add: summary_lines_def)
  moreover have "sublist (face_shape r) (''Face shape  : '' @ face_shape r)"
    by (rule sublist_append_leftI)
  ultimately show "sublist (face_shape r) (summary r)"
    by (rule sublist_summary)
  have "''Age         : '' @ str_int (age r) @ '' ('' @ age_group r @ '')''
          \<in> set (summary_lines r)"
    by (simp add: summary_lines_def)
  moreover have "sublist (age_group r)
      ((''Age         : '' @ str_int (age r) @ '' ('') @ age_group r @ '')'')"
    by (rule sublist_appendI)
  ultimately show "sublist (age_group r) (summary r)"
    by (intro sublist_summary [where l = "''Age         : '' @ str_int (age r) @ '' ('' @ age_group r @ '')''"]) simp_all
  have "''Fit notes   : '' @ fit_notes r \<in> set (summary_lines r)"
    by (simp add: summary_lines_def)
  moreover have "sublist (fit_notes r) (''Fit notes   : '' @ fit_notes r)"
    by (rule sublist_append_leftI)
  ultimately show "sublist (fit_notes r) (summary r)"
    by (rule sublist_summary)
qed

lemma has_line_summary:
  assumes "newline_free r"
  shows "has_line ''Avoid       : '' (summary r) \<longleftrightarrow> frames_to_avoid r \<noteq> []"
    and "has_line ''Lenses      : '' (summary r) \<longleftrightarrow> lens_suggestions r \<noteq> []"
  unfolding has_line_def split_lines_summary [OF assms]
  by (simp_all add: summary_lines_def)


lemma FACE_SHAPE_FRAMES_no_newline:
  assumes "(k, base) \<in> set FACE_SHAPE_FRAMES"
  shows "no_newline k \<and> list_all no_newline base"
  using assms [unfolded set_FACE_SHAPE_FRAMES]
  by (elim disjE conjE) (simp_all add: no_newline_def)

lemma AGE_GROUP_MODIFIERS_no_newline:
  assumes "(g, m) \<in> set AGE_GROUP_MODIFIERS"
  shows "no_newline g \<and> list_all no_newline (mod_prefer m) \<and> list_all no_newline (mod_avoid m)
           \<and> no_newline (mod_fit_notes m)"
proof -
  from assms have "(g, m) = AGE_GROUP_MODIFIERS ! 0 \<or> (g, m) = AGE_GROUP_MODIFIERS ! 1
      \<or> (g, m) = AGE_GROUP_MODIFIERS ! 2 \<or> (g, m) = AGE_GROUP_MODIFIERS ! 3
      \<or> (g, m) = AGE_GROUP_MODIFIERS ! 4"
    by (simp add: AGE_GROUP_MODIFIERS_def)
  then show ?thesis
    by (elim disjE) (simp_all add: AGE_GROUP_MODIFIERS_def no_newline_def)
qed

lemma AGE_LENS_SUGGESTIONS_no_newline:
  "list_all no_newline (dict_get AGE_LENS_SUGGESTIONS g [])"
  by (simp add: dict_get_def AGE_LENS_SUGGESTIONS_def no_newline_def)

lemma list_all_filter:
  assumes "list_all P xs"
  shows "list_all P (filter Q xs)"
  using assms by (induction xs) simp_all

lemma recommend_glasses_newline_free:
  assumes "recommend_glasses s a = Inr r"
  shows "newline_free r"
proof -
  from assms have w: "recommend_glasses_with AGE_LENS_SUGGESTIONS s a = Inr r"
    by (simp add: recommend_glasses_def)
  from recommend_glasses_with_InrD [OF w] obtain base g m
    where base: "map_of FACE_SHAPE_FRAMES (lower (strip s)) = Some base"
      and g: "classify_age_group a = Inr g" and m: "map_of AGE_GROUP_MODIFIERS g = Some m"
    by blast
  have eq: "r = \<lparr>face_shape = lower (strip s), age = a, age_group = g,
                recommended_frames = filter (\<lambda>f. f \<notin> set (mod_avoid m)) base,
                preferred_features = mod_prefer m, frames_to_avoid = mod_avoid m,
                fit_notes = mod_fit_notes m,
                lens_suggestions = dict_get AGE_LENS_SUGGESTIONS g []\<rparr>"
    using w by (simp add: recommend_glasses_with_known [OF base g m])
  from base have "(lower (strip s), base) \<in> set FACE_SHAPE_FRAMES"
    by (rule map_of_SomeD)
  then have b: "no_newline (lower (strip s))" "list_all no_newline base"
    using FACE_SHAPE_FRAMES_no_newline by blast+
  from m have "(g, m) \<in> set AGE_GROUP_MODIFIERS"
    by (rule map_of_SomeD)
  then have "no_newline g \<and> list_all no_newline (mod_prefer m)
      \<and> list_all no_newline (mod_avoid m) \<and> no_newline (mod_fit_notes m)"
    by (rule AGE_GROUP_MODIFIERS_no_newline)
  with b show ?thesis
    by (simp add: eq newline_free_def list_all_filter AGE_LENS_SUGGESTIONS_no_newline)
qed

lemma split_lines_nonempty: "split_lines s \<noteq> []"
  by (induction s) (simp_all split: list.splits)

lemma length_split_lines:
  "length (split_lines s) = Suc (length (filter (\<lambda>c. c = CHR 0x0A) s))"
proof (induction s)
  case Nil
  then show ?case by simp
next
  case (Cons c cs)
  then show ?case
    by (cases "split_lines cs") (simp_all add: split_lines_nonempty)
qed

lemma newlines_join:
  "length xs \<le> Suc (length (filter (\<lambda>c. c = CHR 0x0A) (join [CHR 0x0A] xs)))"
  by (induction "[CHR 0x0A]" xs rule: join.induct) simp_all

lemma summary_multi_line: "5 \<le> length (split_lines (summary r))"
proof -
  have "5 \<le> length (summary_lines r)"
    by (simp add: summary_lines_def)
  also have "\<dots> \<le> length (split_lines (summary r))"
    unfolding summary_def length_split_lines by (rule newlines_join)
  finally show ?thesis .
qed

lemma summary_lines_labels:
  "list_ex (prefix ''Avoid       : '') (summary_lines r) \<longleftrightarrow> frames_to_avoid r \<noteq> []"
  "list_ex (prefix ''Lenses      : '') (summary_lines r) \<longleftrightarrow> lens_suggestions r \<noteq> []"
  by (simp_all add: summary_lines_def)

text \<open>
  C9. For every recommendation, the text of \<open>summary\<close> contains the \<open>face_shape\<close>, the
  \<open>age_group\<close> and the \<open>fit_notes\<close> verbatim, and it is the lines the method builds
  joined by newlines, so it has at least five lines. Among the lines the method builds, one
  carries the avoid label if and only if \<open>frames_to_avoid\<close> is not empty, and one carries
  the lenses label if and only if \<open>lens_suggestions\<close> is not empty. For every
  recommendation none of whose strings holds a newline, and so for every recommendation that
  \<open>recommend_glasses\<close> returns, the lines of the text are exactly the lines the method
  builds, and the same two equivalences hold of the lines of the text.
\<close>

theorem summary_contents:
  "sublist (face_shape r) (summary r) \<and> sublist (age_group r) (summary r)
   \<and> sublist (fit_notes r) (summary r)
   \<and> summary r = join [CHR 0x0A] (summary_lines r)
   \<and> 5 \<le> length (split_lines (summary r))
   \<and> (list_ex (prefix ''Avoid       : '') (summary_lines r) \<longleftrightarrow> frames_to_avoid r \<noteq> [])
   \<and> (list_ex (prefix ''Lenses      : '') (summary_lines r) \<longleftrightarrow> lens_suggestions r \<noteq> [])
   \<and> (newline_free r \<longrightarrow>
        split_lines (summary r) = summary_lines r
        \<and> (has_line ''Avoid       : '' (summary r) \<longleftrightarrow> frames_to_avoid r \<noteq> [])
        \<and> (has_line ''Lenses      : '' (summary r) \<longleftrightarrow> lens_suggestions r \<noteq> []))
   \<and> (\<forall>s a r'. recommend_glasses s a = Inr r' \<longrightarrow>
        split_lines (summary r') = summary_lines r'
        \<and> (has_line ''Avoid       : '' (summary r') \<longleftrightarrow> frames_to_avoid r' \<noteq> [])
        \<and> (has_line ''Lenses      : '' (summary r') \<longleftrightarrow> lens_suggestions r' \<noteq> []))"
proof (intro conjI allI impI)
  show "sublist (face_shape r) (summary r)" "sublist (age_group r) (summary r)"
    "sublist (fit_notes r) (summary r)"
    by (rule summary_contains_fields)+
  show "summary r = join [CHR 0x0A] (summary_lines r)"
    by (rule summary_def)
  show "5 \<le> length (split_lines (summary r))"
    by (rule summary_multi_line)
  show "list_ex (prefix ''Avoid       : '') (summary_lines r) \<longleftrightarrow> frames_to_avoid r \<noteq> []"
    by (rule summary_lines_labels)
  show "list_ex (prefix ''Lenses      : '') (summary_lines r) \<longleftrightarrow> lens_suggestions r \<noteq> []"
    by (rule summary_lines_labels)
next
  assume n: "newline_free r"
  then show "split_lines (summary r) = summary_lines r"
    by (rule split_lines_summary)
  show "has_line ''Avoid       : '' (summary r) \<longleftrightarrow> frames_to_avoid r \<noteq> []"
    using n by (rule has_line_summary)
  show "has_line ''Lenses      : '' (summary r) \<longleftrightarrow> lens_suggestions r \<noteq> []"
    using n by (rule has_line_summary)
next
  fix s a r'
  assume "recommend_glasses s a = Inr r'"
  then have n: "newline_free r'"
    by (rule recommend_glasses_newline_free)
  then show "split_lines (summary r') = summary_lines r'"
    by (rule split_lines_summary)
  show "has_line ''Avoid       : '' (summary r') \<longleftrightarrow> frames_to_avoid r' \<noteq> []"
    using n by (rule has_line_summary)
  show "has_line ''Lenses      : '' (summary r') \<longleftrightarrow> lens_suggestions r' \<noteq> []"
    using n by (rule has_line_summary)
qed

theorem summary_contents_witness:
  "\<exists>r r'. recommend_glasses ''square'' 10 = Inr r
      \<and> frames_to_avoid r \<noteq> [] \<and> has_line ''Avoid       : '' (summary r)
      \<and> has_line ''Lenses      : '' (summary r)
      \<and> recommend_glasses ''square'' 25 = Inr r'
      \<and> frames_to_avoid r' = [] \<and> \<not> has_line ''Avoid       : '' (summary r')"
proof -
  have "case recommend_glasses ''square'' 10 of
          Inl e \<Rightarrow> False | Inr r \<Rightarrow> frames_to_avoid r \<noteq> [] \<and> lens_suggestions r \<noteq> []"
    by code_simp
  then obtain r where r: "recommend_glasses ''square'' 10 = Inr r"
    and a: "frames_to_avoid r \<noteq> []" and l: "lens_suggestions r \<noteq> []"
    by (cases "recommend_glasses ''square'' 10") simp_all
  have "case recommend_glasses ''square'' 25 of
          Inl e \<Rightarrow> False | Inr r \<Rightarrow> frames_to_avoid r = []"
    by code_simp
  then obtain r' where r': "recommend_glasses ''square'' 25 = Inr r'"
    and a': "frames_to_avoid r' = []"
    by (cases "recommend_glasses ''square'' 25") simp_all
  note e = summary_contents [THEN conjunct2, THEN conjunct2, THEN conjunct2, THEN conjunct2,
      THEN conjunct2, THEN conjunct2, THEN conjunct2, THEN conjunct2, rule_format]
  from e [OF r] a l have "has_line ''Avoid       : '' (summary r)"
    and "has_line ''Lenses      : '' (summary r)"
    by simp_all
  moreover from e [OF r'] a' have "\<not> has_line ''Avoid       : '' (summary r')"
    by simp
  ultimately show ?thesis
    using r r' a a' by blast
qed

end
